theory Spec2Isabelle
  imports Main "HOL-Library.Sublist"
begin

section \<open>Strings\<close>

text \<open>
  Go strings are byte sequences; they are modelled as \<open>string\<close> (a list of 8-bit
  characters). The three library functions below are the ones the repository calls.
\<close>

text \<open>\<open>strings.Contains(s, substr)\<close>: \<open>substr\<close> occurs somewhere inside \<open>s\<close>; the empty
  string occurs in every string.\<close>

fun strings_Contains :: "string \<Rightarrow> string \<Rightarrow> bool" where
  "strings_Contains [] substr = (substr = [])"
| "strings_Contains (c # s) substr = (prefix substr (c # s) \<or> strings_Contains s substr)"

text \<open>\<open>strings.Join(elems, sep)\<close>.\<close>

fun strings_Join :: "string list \<Rightarrow> string \<Rightarrow> string" where
  "strings_Join [] sep = []"
| "strings_Join [x] sep = x"
| "strings_Join (x # y # xs) sep = x @ sep @ strings_Join (y # xs) sep"

text \<open>\<open>strings.Split(s, sep)\<close> for a one-byte separator (the repository only splits at
  \<open>","\<close>): the pieces between the separators, so \<open>n\<close> separators give \<open>n + 1\<close> pieces
  and the empty string gives one empty piece.\<close>

fun split_byte :: "char \<Rightarrow> string \<Rightarrow> string \<Rightarrow> string list" where
  "split_byte sep acc [] = [rev acc]"
| "split_byte sep acc (c # s) =
     (if c = sep then rev acc # split_byte sep [] s else split_byte sep (c # acc) s)"

definition strings_Split :: "string \<Rightarrow> char \<Rightarrow> string list" where
  "strings_Split s sep = split_byte sep [] s"

text \<open>Decimal rendering of a Go \<open>int\<close>, as \<open>fmt\<close> prints it under \<open>%v\<close>.\<close>

fun string_of_nat :: "nat \<Rightarrow> string" where
  "string_of_nat n =
     (if n < 10 then [char_of (48 + n)]
      else string_of_nat (n div 10) @ [char_of (48 + n mod 10)])"

declare string_of_nat.simps [simp del]

definition string_of_int :: "int \<Rightarrow> string" where
  "string_of_int i = (if i < 0 then CHR ''-'' # string_of_nat (nat (- i)) else string_of_nat (nat i))"

text \<open>
  \<open>strconv.Quote(s)\<close> on ASCII input: the string between double quotes, with the double
  quote and the backslash escaped by a backslash, the printable bytes \<open>0x20 .. 0x7e\<close>
  copied, the control characters that have a Go escape written as that escape, and every
  other byte written as \<open>\x\<close> followed by two lower-case hexadecimal digits. A byte from
  \<open>0x80\<close> up is rendered the way Go renders a byte that does not start a valid UTF-8
  sequence; multi-byte runes are outside this model.
\<close>

definition hex_digit :: "nat \<Rightarrow> char" where
  "hex_digit d = (if d < 10 then char_of (48 + d) else char_of (87 + d))"

definition quote_byte :: "char \<Rightarrow> string" where
  "quote_byte c =
     (let n = (of_char c :: nat) in
      if c = CHR 0x22 \<or> c = CHR 0x5C then [CHR 0x5C, c]
      else if 32 \<le> n \<and> n \<le> 126 then [c]
      else if n = 7 then [CHR 0x5C, CHR ''a'']
      else if n = 8 then [CHR 0x5C, CHR ''b'']
      else if n = 12 then [CHR 0x5C, CHR ''f'']
      else if n = 10 then [CHR 0x5C, CHR ''n'']
      else if n = 13 then [CHR 0x5C, CHR ''r'']
      else if n = 9 then [CHR 0x5C, CHR ''t'']
      else if n = 11 then [CHR 0x5C, CHR ''v'']
      else [CHR 0x5C, CHR ''x'', hex_digit (n div 16), hex_digit (n mod 16)])"

definition strconv_Quote :: "string \<Rightarrow> string" where
  "strconv_Quote s = CHR 0x22 # concat (map quote_byte s) @ [CHR 0x22]"

section \<open>Error values\<close>

text \<open>
  A Go \<open>error\<close> is an interface value; \<open>nil\<close> is \<open>None\<close> of \<open>go_error option\<close>. The
  datatype lists the dynamic types the classifiers of \<open>lib/utils/error.go\<close> and the
  phases tell apart:
  \<^item> \<open>ContextCanceled\<close>: the sentinel \<open>context.Canceled\<close> (compared by identity, so an
    \<open>ErrorString\<close> with the same text is another value);
  \<^item> \<open>ErrorString\<close>: an error that is nothing but its message;
  \<^item> \<open>TraceErr message err\<close>: \<open>*trace.TraceErr\<close>, the wrapper \<open>trace.Wrap\<close> builds;
  \<^item> \<open>ConnectionProblemError message err\<close>, \<open>NotFoundError\<close>, \<open>AlreadyExistsError\<close>,
    \<open>AccessDeniedError\<close>, \<open>BadParameterError\<close>: the error kinds of the trace package;
  \<^item> \<open>StatusError code reason message\<close>: \<open>*kubeerrors.StatusError\<close> with the three fields
    of its \<open>ErrStatus\<close> that are read;
  \<^item> \<open>ClusterError errors\<close>: \<open>*etcd.ClusterError\<close> with the messages of its member errors;
  \<^item> \<open>PermanentError err\<close>: \<open>*backoff.PermanentError\<close>;
  \<^item> \<open>ExitCodeError code message err\<close>: the repository's own \<open>exitCodeError\<close> struct.
\<close>

datatype go_error =
    ContextCanceled
  | ErrorString string
  | TraceErr string go_error
  | ConnectionProblemError string "go_error option"
  | NotFoundError string
  | AlreadyExistsError string
  | AccessDeniedError string
  | BadParameterError string
  | StatusError int string string
  | ClusterError "string list"
  | PermanentError go_error
  | ExitCodeError int string "go_error option"

text \<open>The text \<open>(*etcd.ClusterError).Error\<close> appends for member \<open>i\<close>.\<close>

fun cluster_error_items :: "nat \<Rightarrow> string list \<Rightarrow> string" where
  "cluster_error_items i [] = []"
| "cluster_error_items i (e # es) =
     ''; error #'' @ string_of_nat i @ '': '' @ e @ [CHR 0x0A] @ cluster_error_items (Suc i) es"

text \<open>
  The method \<open>Error()\<close> of each dynamic type. For \<open>exitCodeError\<close> it is the method of
  \<open>lib/utils/error.go\<close>; for \<open>*trace.TraceErr\<close> it is the user message (the trace
  package's debug mode, which prints a stack trace instead, is off).
\<close>

fun Error :: "go_error \<Rightarrow> string" where
  "Error ContextCanceled = ''context canceled''"
| "Error (ErrorString m) = m"
| "Error (TraceErr m e) = (if m \<noteq> [] then m else Error e)"
| "Error (ConnectionProblemError m None) = m"
| "Error (ConnectionProblemError m (Some e)) = Error e"
| "Error (NotFoundError m) = (if m \<noteq> [] then m else ''object not found'')"
| "Error (AlreadyExistsError m) = (if m \<noteq> [] then m else ''object already exists'')"
| "Error (AccessDeniedError m) = (if m \<noteq> [] then m else ''access denied'')"
| "Error (BadParameterError m) = m"
| "Error (StatusError code reason m) = m"
| "Error (ClusterError es) =
     ''client: etcd cluster is unavailable or misconfigured'' @ cluster_error_items 0 es"
| "Error (PermanentError e) = Error e"
| "Error (ExitCodeError code m None) =
     (if m \<noteq> [] then m else ''exit with code '' @ string_of_int code)"
| "Error (ExitCodeError code m (Some e)) = Error e"

subsection \<open>The trace package\<close>

text \<open>\<open>trace.Unwrap\<close>: the original error under the \<open>TraceErr\<close> wrappers; every other error
  (and \<open>nil\<close>) is returned as it is.\<close>

fun trace_Unwrap :: "go_error \<Rightarrow> go_error" where
  "trace_Unwrap (TraceErr m e) = trace_Unwrap e"
| "trace_Unwrap e = e"

text \<open>\<open>trace.Wrap\<close>: an error that is a trace error already is returned as it is, any other is
  put into a new \<open>TraceErr\<close> with no message (stack frames are not modelled).\<close>

fun trace_Wrap :: "go_error \<Rightarrow> go_error" where
  "trace_Wrap (TraceErr m e) = TraceErr m e"
| "trace_Wrap e = TraceErr [] e"

text \<open>\<open>trace.UserMessage\<close>: the empty string for \<open>nil\<close>, the user message of a trace error,
  \<open>Error()\<close> of any other.\<close>

fun trace_UserMessage :: "go_error option \<Rightarrow> string" where
  "trace_UserMessage None = []"
| "trace_UserMessage (Some e) = Error e"

fun is_ConnectionProblemError :: "go_error \<Rightarrow> bool" where
  "is_ConnectionProblemError (ConnectionProblemError m e) = True"
| "is_ConnectionProblemError e = False"

fun is_NotFoundError :: "go_error \<Rightarrow> bool" where
  "is_NotFoundError (NotFoundError m) = True"
| "is_NotFoundError e = False"

definition trace_IsConnectionProblem :: "go_error \<Rightarrow> bool" where
  "trace_IsConnectionProblem e = is_ConnectionProblemError (trace_Unwrap e)"

definition trace_IsNotFound :: "go_error \<Rightarrow> bool" where
  "trace_IsNotFound e = is_NotFoundError (trace_Unwrap e)"

definition trace_NotFound :: "string \<Rightarrow> go_error" where
  "trace_NotFound m = TraceErr [] (NotFoundError m)"

definition trace_AlreadyExists :: "string \<Rightarrow> go_error" where
  "trace_AlreadyExists m = TraceErr [] (AlreadyExistsError m)"

definition trace_AccessDenied :: "string \<Rightarrow> go_error" where
  "trace_AccessDenied m = TraceErr [] (AccessDeniedError m)"

definition trace_BadParameter :: "string \<Rightarrow> go_error" where
  "trace_BadParameter m = TraceErr [] (BadParameterError m)"

section \<open>Error classification: \<open>lib/utils/error.go\<close>\<close>

definition isEtcdClusterMisconfigured :: "string \<Rightarrow> bool" where
  "isEtcdClusterMisconfigured message =
     strings_Contains message ''etcd cluster is unavailable or misconfigured''"

definition isEtcdClusterHasNoLeader :: "string \<Rightarrow> bool" where
  "isEtcdClusterHasNoLeader message =
     (strings_Contains message ''etcd member'' \<and> strings_Contains message ''has no leader'')"

definition isEtcdClusterErrorMessage :: "string \<Rightarrow> bool" where
  "isEtcdClusterErrorMessage message =
     (isEtcdClusterMisconfigured message \<or> isEtcdClusterHasNoLeader message)"

definition IsClusterUnavailableError :: "go_error \<Rightarrow> bool" where
  "IsClusterUnavailableError err = isEtcdClusterErrorMessage (trace_UserMessage (Some err))"

fun isKubernetesEtcdClusterError_orig :: "go_error \<Rightarrow> bool" where
  "isKubernetesEtcdClusterError_orig (StatusError code reason m) =
     (code = 500 \<and> isEtcdClusterErrorMessage m)"
| "isKubernetesEtcdClusterError_orig e = False"

definition isKubernetesEtcdClusterError :: "go_error \<Rightarrow> bool" where
  "isKubernetesEtcdClusterError err = isKubernetesEtcdClusterError_orig (trace_Unwrap err)"

fun is_ClusterError :: "go_error \<Rightarrow> bool" where
  "is_ClusterError (ClusterError es) = True"
| "is_ClusterError e = False"

definition isEtcdClusterError :: "go_error \<Rightarrow> bool" where
  "isEtcdClusterError err = is_ClusterError (trace_Unwrap err)"

definition IsConnectionResetError :: "go_error \<Rightarrow> bool" where
  "IsConnectionResetError err =
     strings_Contains (Error (trace_Unwrap err)) ''connection reset by peer''"

definition IsConnectionRefusedError :: "go_error \<Rightarrow> bool" where
  "IsConnectionRefusedError err =
     strings_Contains (Error (trace_Unwrap err)) ''connection refused''"

text \<open>The \<open>switch\<close> of \<open>IsTransientClusterError\<close>, case by case, after the \<open>nil\<close> test.\<close>

fun IsTransientClusterError :: "go_error option \<Rightarrow> bool" where
  "IsTransientClusterError None = False"
| "IsTransientClusterError (Some err) =
     (if trace_IsConnectionProblem err then True
      else if IsConnectionResetError err then True
      else if IsConnectionRefusedError err then True
      else if IsClusterUnavailableError err \<or> isEtcdClusterError err then True
      else if isKubernetesEtcdClusterError err then True
      else False)"

text \<open>\<open>IsContextCancelledError\<close>. \<open>trace.Unwrap(nil)\<close> is \<open>nil\<close>, which is neither the sentinel nor
  a connection problem.\<close>

fun IsContextCancelledError_orig :: "go_error \<Rightarrow> bool" where
  "IsContextCancelledError_orig ContextCanceled = True"
| "IsContextCancelledError_orig (ConnectionProblemError m e) = (e = Some ContextCanceled)"
| "IsContextCancelledError_orig e = False"

fun IsContextCancelledError :: "go_error option \<Rightarrow> bool" where
  "IsContextCancelledError None = False"
| "IsContextCancelledError (Some err) = IsContextCancelledError_orig (trace_Unwrap err)"

definition isPeerDeniedError :: "string \<Rightarrow> bool" where
  "isPeerDeniedError message = strings_Contains message ''peer not authorized''"

definition isLicenseError :: "string \<Rightarrow> bool" where
  "isLicenseError message = strings_Contains message ''license allows maximum of''"

definition isHostAlreadyRegisteredError :: "string \<Rightarrow> bool" where
  "isHostAlreadyRegisteredError message =
     (strings_Contains message ''One of existing peers already has hostname'' \<or>
      strings_Contains message ''One of existing servers already has hostname'')"

text \<open>\<open>ShouldReconnectPeer\<close> calls \<open>err.Error()\<close> first, so it is a function of a non-nil
  error.\<close>

definition ShouldReconnectPeer :: "go_error \<Rightarrow> go_error" where
  "ShouldReconnectPeer err =
     (if isPeerDeniedError (Error err) \<or> isLicenseError (Error err) \<or>
         isHostAlreadyRegisteredError (Error err)
      then PermanentError err
      else err)"

subsection \<open>Exit code errors\<close>

definition NewExitCodeError :: "int \<Rightarrow> go_error option" where
  "NewExitCodeError exitCode = (if exitCode = 0 then None else Some (ExitCodeError exitCode [] None))"

definition NewExitCodeErrorWithMessage :: "int \<Rightarrow> string \<Rightarrow> go_error" where
  "NewExitCodeErrorWithMessage exitCode message = ExitCodeError exitCode message None"

definition WrapExitCodeError :: "int \<Rightarrow> go_error option \<Rightarrow> go_error" where
  "WrapExitCodeError exitCode err = ExitCodeError exitCode [] err"

text \<open>The methods of the interface \<open>ExitCodeError\<close>; \<open>None\<close> where the dynamic type does not
  have the method (the type assertion to the interface fails).\<close>

fun ExitCode :: "go_error \<Rightarrow> int option" where
  "ExitCode (ExitCodeError code m e) = Some code"
| "ExitCode e = None"

fun OrigError :: "go_error \<Rightarrow> go_error option" where
  "OrigError (ExitCodeError code m None) = Some (ExitCodeError code m None)"
| "OrigError (ExitCodeError code m (Some e)) = Some e"
| "OrigError e = None"

definition implements_ExitCodeError :: "go_error \<Rightarrow> bool" where
  "implements_ExitCodeError e = (ExitCode e \<noteq> None \<and> OrigError e \<noteq> None)"


section \<open>Agent coordination: \<open>watchReconnects\<close>\<close>

text \<open>
  A \<open>WatchEvent\<close> is a peer and an error (the field \<open>Error\<close> of the source is \<open>Error_ev\<close>
  here, since \<open>Error\<close> is the method above); the peer is its printed address.
\<close>

record WatchEvent =
  Peer :: string
  Error_ev :: "go_error option"

text \<open>
  What the loop of \<open>watchReconnects\<close> does, in order: it receives an event from the channel,
  logs a warning naming a peer and its error, calls \<open>cancel\<close>.
\<close>

datatype watch_action = Receive WatchEvent | Warnf string go_error | Cancel

text \<open>
  The body of the goroutine over the events the channel delivers before it is closed:
  \<open>for event := range watchCh\<close> ends when the channel is exhausted, \<open>continue\<close> goes to the
  next event, \<open>return\<close> leaves the rest of the channel unread.
\<close>

fun watchReconnects :: "WatchEvent list \<Rightarrow> watch_action list" where
  "watchReconnects [] = []"
| "watchReconnects (event # rest) =
     Receive event #
       (case Error_ev event of
          None \<Rightarrow> watchReconnects rest
        | Some err \<Rightarrow> [Warnf (Peer event) err, Cancel])"

section \<open>The OpenEBS phase: \<open>Rollback\<close>\<close>

text \<open>
  \<open>rigging.ConvertError\<close>: a Kubernetes status error becomes the trace error of its code
  (conflict with reason \<open>AlreadyExists\<close>, not found, forbidden) carrying the status message;
  every other error and \<open>nil\<close> pass through. The status is taken to have no details.
\<close>

fun rigging_ConvertError :: "go_error option \<Rightarrow> go_error option" where
  "rigging_ConvertError None = None"
| "rigging_ConvertError (Some (StatusError code reason m)) =
     (if code = 409 \<and> reason = ''AlreadyExists'' then Some (trace_AlreadyExists m)
      else if code = 404 then Some (trace_NotFound m)
      else if code = 403 then Some (trace_AccessDenied m)
      else Some (StatusError code reason m))"
| "rigging_ConvertError (Some e) = Some e"

text \<open>
  \<open>(*openebs).Rollback\<close> as a function of what the \<open>Delete\<close> call on the config map
  returned (the progress step and the log line are not modelled).
\<close>

definition openebs_Rollback :: "go_error option \<Rightarrow> go_error option" where
  "openebs_Rollback deleted =
     (case rigging_ConvertError deleted of
        None \<Rightarrow> None
      | Some err \<Rightarrow> if \<not> trace_IsNotFound err then Some (trace_Wrap err) else None)"

section \<open>Dispatch: \<open>FSMSpec\<close> of \<open>lib/install/fsmspec.go\<close>\<close>

text \<open>
  The phase identifiers \<open>phases.InitPhase\<close>, \<open>phases.ChecksPhase\<close>, ... are constants of the
  package \<open>lib/install/phases\<close>; \<open>FSMSpec\<close> is modelled for any values of them.
\<close>

record phase_names =
  InitPhase :: string
  ChecksPhase :: string
  ConfigurePhase :: string
  BootstrapPhase :: string
  PullPhase :: string
  MastersPhase :: string
  NodesPhase :: string
  WaitPhase :: string
  HealthPhase :: string
  RBACPhase :: string
  CorednsPhase :: string
  SystemResourcesPhase :: string
  UserResourcesPhase :: string
  ExportPhase :: string
  RuntimePhase :: string
  AppPhase :: string
  ConnectInstallerPhase :: string
  EnableElectionPhase :: string
  InstallOverlayPhase :: string
  GravityResourcesPhase :: string

text \<open>The executor factories of the package \<open>phases\<close> that \<open>FSMSpec\<close> hands the phase to.\<close>

datatype factory =
    NewInit | NewChecks | NewConfigure | NewBootstrap | NewPull | NewSystem | NewWait
  | NewHealth | NewRBAC | NewCorednsPhase | NewSystemResources | NewUserResources
  | NewExport | NewApp | NewConnectInstaller | NewEnableElectionPhase | NewHook
  | NewGravityResourcesPhase

text \<open>
  The collaborators whose construction can fail while resolving: the error (or \<open>nil\<close>) of
  \<open>httplib.GetClusterKubeClient\<close>, of \<open>config.LocalClusterClient\<close> and of \<open>gravity.New\<close>.
\<close>

record resolve_env =
  GetClusterKubeClient :: "go_error option"
  LocalClusterClient :: "go_error option"
  gravity_New :: "go_error option"

text \<open>\<open>getKubeClient\<close> returns the client with \<open>trace.Wrap(err)\<close>; only the error is kept.\<close>

definition getKubeClient :: "resolve_env \<Rightarrow> go_error option" where
  "getKubeClient env = map_option trace_Wrap (GetClusterKubeClient env)"

text \<open>
  The function \<open>FSMSpec\<close> returns, applied to a phase with identifier \<open>pid\<close>: \<open>Inr f\<close> is the
  result of calling the factory \<open>f\<close>, \<open>Inl err\<close> the error returned with no executor.
\<close>

definition FSMSpec :: "phase_names \<Rightarrow> resolve_env \<Rightarrow> string \<Rightarrow> go_error + factory" where
  "FSMSpec c env pid =
     (if prefix (InitPhase c) pid then Inr NewInit
      else if pid = ChecksPhase c then Inr NewChecks
      else if pid = ConfigurePhase c then Inr NewConfigure
      else if prefix (BootstrapPhase c) pid then Inr NewBootstrap
      else if prefix (PullPhase c) pid then Inr NewPull
      else if prefix (MastersPhase c) pid \<or> prefix (NodesPhase c) pid then Inr NewSystem
      else if pid = WaitPhase c then
        (case getKubeClient env of Some err \<Rightarrow> Inl (trace_Wrap err) | None \<Rightarrow> Inr NewWait)
      else if pid = HealthPhase c then Inr NewHealth
      else if pid = RBACPhase c then
        (case getKubeClient env of Some err \<Rightarrow> Inl (trace_Wrap err) | None \<Rightarrow> Inr NewRBAC)
      else if pid = CorednsPhase c then
        (case getKubeClient env of Some err \<Rightarrow> Inl (trace_Wrap err)
         | None \<Rightarrow> Inr NewCorednsPhase)
      else if pid = SystemResourcesPhase c then
        (case getKubeClient env of Some err \<Rightarrow> Inl (trace_Wrap err)
         | None \<Rightarrow> Inr NewSystemResources)
      else if pid = UserResourcesPhase c then Inr NewUserResources
      else if prefix (ExportPhase c) pid then Inr NewExport
      else if prefix (RuntimePhase c) pid \<or> prefix (AppPhase c) pid then Inr NewApp
      else if pid = ConnectInstallerPhase c then Inr NewConnectInstaller
      else if prefix (EnableElectionPhase c) pid then Inr NewEnableElectionPhase
      else if prefix (InstallOverlayPhase c) pid then Inr NewHook
      else if prefix (GravityResourcesPhase c) pid then
        (case LocalClusterClient env of
           Some err \<Rightarrow> Inl (trace_Wrap err)
         | None \<Rightarrow>
             (case gravity_New env of
                Some err \<Rightarrow> Inl (trace_Wrap err)
              | None \<Rightarrow> Inr NewGravityResourcesPhase))
      else Inl (trace_BadParameter (''unknown phase '' @ strconv_Quote pid)))"

subsection \<open>The resolver as the specification words it\<close>

text \<open>
  The specification describes resolution as an ordered table of pairs of a matcher (a
  prefix or an exact identifier) and a factory, of which the first matching entry wins.
  \<open>Resolve\<close> is that description, to be compared with \<open>FSMSpec\<close>.
\<close>

datatype matcher = HasPrefix string | Exactly string

fun matches :: "matcher \<Rightarrow> string \<Rightarrow> bool" where
  "matches (HasPrefix p) pid = prefix p pid"
| "matches (Exactly s) pid = (pid = s)"

definition phase_table :: "phase_names \<Rightarrow> (matcher \<times> factory) list" where
  "phase_table c =
     [(HasPrefix (InitPhase c), NewInit),
      (Exactly (ChecksPhase c), NewChecks),
      (Exactly (ConfigurePhase c), NewConfigure),
      (HasPrefix (BootstrapPhase c), NewBootstrap),
      (HasPrefix (PullPhase c), NewPull),
      (HasPrefix (MastersPhase c), NewSystem),
      (HasPrefix (NodesPhase c), NewSystem),
      (Exactly (WaitPhase c), NewWait),
      (Exactly (HealthPhase c), NewHealth),
      (Exactly (RBACPhase c), NewRBAC),
      (Exactly (CorednsPhase c), NewCorednsPhase),
      (Exactly (SystemResourcesPhase c), NewSystemResources),
      (Exactly (UserResourcesPhase c), NewUserResources),
      (HasPrefix (ExportPhase c), NewExport),
      (HasPrefix (RuntimePhase c), NewApp),
      (HasPrefix (AppPhase c), NewApp),
      (Exactly (ConnectInstallerPhase c), NewConnectInstaller),
      (HasPrefix (EnableElectionPhase c), NewEnableElectionPhase),
      (HasPrefix (InstallOverlayPhase c), NewHook),
      (HasPrefix (GravityResourcesPhase c), NewGravityResourcesPhase)]"

fun first_match :: "(matcher \<times> factory) list \<Rightarrow> string \<Rightarrow> factory option" where
  "first_match [] pid = None"
| "first_match ((m, f) # entries) pid = (if matches m pid then Some f else first_match entries pid)"

text \<open>The clients a factory needs, acquired before it is called.\<close>

definition acquire :: "resolve_env \<Rightarrow> factory \<Rightarrow> go_error option" where
  "acquire env f =
     (if f = NewWait \<or> f = NewRBAC \<or> f = NewCorednsPhase \<or> f = NewSystemResources
      then map_option trace_Wrap (getKubeClient env)
      else if f = NewGravityResourcesPhase
      then (case LocalClusterClient env of
              Some err \<Rightarrow> Some (trace_Wrap err)
            | None \<Rightarrow> map_option trace_Wrap (gravity_New env))
      else None)"

definition Resolve :: "phase_names \<Rightarrow> resolve_env \<Rightarrow> string \<Rightarrow> go_error + factory" where
  "Resolve c env pid =
     (case first_match (phase_table c) pid of
        None \<Rightarrow> Inl (trace_BadParameter (''unknown phase '' @ strconv_Quote pid))
      | Some f \<Rightarrow> (case acquire env f of Some err \<Rightarrow> Inl err | None \<Rightarrow> Inr f))"

text \<open>
  No identifier can match an entry above the masters and nodes entries and one of those two
  as well, and the checks identifier does not match the entry above it: the condition on the
  phase constants under which the table is unambiguous for these three routes.
\<close>

definition routes_unambiguous :: "phase_names \<Rightarrow> bool" where
  "routes_unambiguous c =
     ((\<forall>p \<in> set [InitPhase c, BootstrapPhase c, PullPhase c].
         \<forall>q \<in> set [MastersPhase c, NodesPhase c]. \<not> prefix p q \<and> \<not> prefix q p) \<and>
      (\<forall>q \<in> set [MastersPhase c, NodesPhase c].
         \<not> prefix q (ChecksPhase c) \<and> \<not> prefix q (ConfigurePhase c)) \<and>
      \<not> prefix (InitPhase c) (ChecksPhase c))"

text \<open>Phase constants for the examples: the identifiers the specification names, and
  others in the same style.\<close>

definition example_phases :: phase_names where
  "example_phases =
     \<lparr>InitPhase = ''init'', ChecksPhase = ''checks'', ConfigurePhase = ''configure'',
      BootstrapPhase = ''bootstrap'', PullPhase = ''pull'', MastersPhase = ''masters'',
      NodesPhase = ''nodes'', WaitPhase = ''wait'', HealthPhase = ''health'',
      RBACPhase = ''rbac'', CorednsPhase = ''coredns'',
      SystemResourcesPhase = ''system-resources'', UserResourcesPhase = ''user-resources'',
      ExportPhase = ''export'', RuntimePhase = ''runtime'', AppPhase = ''app'',
      ConnectInstallerPhase = ''connect-installer'', EnableElectionPhase = ''election'',
      InstallOverlayPhase = ''overlay'', GravityResourcesPhase = ''gravity-resources''\<rparr>"

text \<open>The environment in which every client can be constructed.\<close>

definition no_failures :: resolve_env where
  "no_failures = \<lparr>GetClusterKubeClient = None, LocalClusterClient = None, gravity_New = None\<rparr>"

section \<open>Node disk manager configuration: \<open>lib/storage/persistentstorage.go\<close>\<close>

record NDMProbe =
  ProbeName :: string
  ProbeKey :: string
  ProbeState :: bool

record NDMFilter =
  Name :: string
  Key :: string
  State :: bool
  Include :: string
  Exclude :: string

record NDMConfig =
  ProbeConfigs :: "NDMProbe list"
  FilterConfigs :: "NDMFilter list"

text \<open>
  The interface \<open>PersistentStorage\<close>, as far as \<open>Apply\<close> uses it: what its five getters
  return.
\<close>

record PersistentStorage =
  GetMountExcludes :: "string list"
  GetVendorIncludes :: "string list"
  GetVendorExcludes :: "string list"
  GetDeviceIncludes :: "string list"
  GetDeviceExcludes :: "string list"

text \<open>
  \<open>getFilter\<close> returns a pointer, and the setters write through it, so the memory is
  explicit: the configuration \<open>c\<close> points to, and the \<open>NDMFilter\<close> variables allocated
  besides it, addressed by their index in \<open>cells\<close>.
\<close>

record ndm_memory =
  config :: NDMConfig
  cells :: "NDMFilter list"

definition empty_NDMFilter :: NDMFilter where
  "empty_NDMFilter = \<lparr>Name = [], Key = [], State = False, Include = [], Exclude = []\<rparr>"

text \<open>
  \<open>getFilter\<close>: in \<open>for _, filter := range c.FilterConfigs\<close> the variable \<open>filter\<close> holds a
  copy of the element, and \<open>&filter\<close> is the address of that variable; when no key matches,
  the address is that of a new empty \<open>NDMFilter\<close>. Either way the result is the address of a
  new cell, and no address of an element of \<open>c.FilterConfigs\<close> is ever returned.
\<close>

definition getFilter :: "string \<Rightarrow> ndm_memory \<Rightarrow> nat \<times> ndm_memory" where
  "getFilter k h =
     (case find (\<lambda>filter'. Key filter' = k) (FilterConfigs (config h)) of
        Some filter' \<Rightarrow> (length (cells h), h\<lparr>cells := cells h @ [filter']\<rparr>)
      | None \<Rightarrow> (length (cells h), h\<lparr>cells := cells h @ [empty_NDMFilter]\<rparr>))"

definition MountExcludes :: "ndm_memory \<Rightarrow> string list" where
  "MountExcludes h =
     (case getFilter ''os-disk-exclude-filter'' h of
        (p, h') \<Rightarrow> strings_Split (Exclude (cells h' ! p)) (CHR '',''))"

definition SetMountExcludes :: "string list \<Rightarrow> ndm_memory \<Rightarrow> ndm_memory" where
  "SetMountExcludes excludes h =
     (case getFilter ''os-disk-exclude-filter'' h of
        (p, h') \<Rightarrow>
          h'\<lparr>cells := (cells h')[p := (cells h' ! p)\<lparr>Exclude := strings_Join excludes '',''\<rparr>]\<rparr>)"

definition VendorExcludes :: "ndm_memory \<Rightarrow> string list" where
  "VendorExcludes h =
     (case getFilter ''vendor-filter'' h of
        (p, h') \<Rightarrow> strings_Split (Exclude (cells h' ! p)) (CHR '',''))"

definition SetVendorExcludes :: "string list \<Rightarrow> ndm_memory \<Rightarrow> ndm_memory" where
  "SetVendorExcludes excludes h =
     (case getFilter ''vendor-filter'' h of
        (p, h') \<Rightarrow>
          h'\<lparr>cells := (cells h')[p := (cells h' ! p)\<lparr>Exclude := strings_Join excludes '',''\<rparr>]\<rparr>)"

definition VendorIncludes :: "ndm_memory \<Rightarrow> string list" where
  "VendorIncludes h =
     (case getFilter ''vendor-filter'' h of
        (p, h') \<Rightarrow> strings_Split (Include (cells h' ! p)) (CHR '',''))"

definition SetVendorIncludes :: "string list \<Rightarrow> ndm_memory \<Rightarrow> ndm_memory" where
  "SetVendorIncludes includes h =
     (case getFilter ''vendor-filter'' h of
        (p, h') \<Rightarrow>
          h'\<lparr>cells := (cells h')[p := (cells h' ! p)\<lparr>Include := strings_Join includes '',''\<rparr>]\<rparr>)"

definition DeviceExcludes :: "ndm_memory \<Rightarrow> string list" where
  "DeviceExcludes h =
     (case getFilter ''path-filter'' h of
        (p, h') \<Rightarrow> strings_Split (Exclude (cells h' ! p)) (CHR '',''))"

definition SetDeviceExcludes :: "string list \<Rightarrow> ndm_memory \<Rightarrow> ndm_memory" where
  "SetDeviceExcludes excludes h =
     (case getFilter ''path-filter'' h of
        (p, h') \<Rightarrow>
          h'\<lparr>cells := (cells h')[p := (cells h' ! p)\<lparr>Exclude := strings_Join excludes '',''\<rparr>]\<rparr>)"

definition DeviceIncludes :: "ndm_memory \<Rightarrow> string list" where
  "DeviceIncludes h =
     (case getFilter ''path-filter'' h of
        (p, h') \<Rightarrow> strings_Split (Include (cells h' ! p)) (CHR '',''))"

definition SetDeviceIncludes :: "string list \<Rightarrow> ndm_memory \<Rightarrow> ndm_memory" where
  "SetDeviceIncludes includes h =
     (case getFilter ''path-filter'' h of
        (p, h') \<Rightarrow>
          h'\<lparr>cells := (cells h')[p := (cells h' ! p)\<lparr>Include := strings_Join includes '',''\<rparr>]\<rparr>)"

definition defaultMountExcludes :: "string list" where
  "defaultMountExcludes = [''/'', ''/etc/hosts'', ''/boot'']"

definition defaultVendorExcludes :: "string list" where
  "defaultVendorExcludes = [''CLOUDBYT'', ''OpenEBS'']"

definition defaultDeviceExcludes :: "string list" where
  "defaultDeviceExcludes =
     [''loop'', ''/dev/fd0'', ''/dev/sr0'', ''/dev/ram'', ''/dev/dm-'', ''/dev/md'']"

text \<open>\<open>DefaultNDMConfig\<close>: the new configuration, in a memory with no other cell.\<close>

definition DefaultNDMConfig :: ndm_memory where
  "DefaultNDMConfig =
     \<lparr>config =
        \<lparr>ProbeConfigs =
           [\<lparr>ProbeName = ''udev probe'', ProbeKey = ''udev-probe'', ProbeState = True\<rparr>,
            \<lparr>ProbeName = ''searchest probe'', ProbeKey = ''searchest-probe'',
               ProbeState = False\<rparr>,
            \<lparr>ProbeName = ''smart probe'', ProbeKey = ''smart-probe'', ProbeState = True\<rparr>],
         FilterConfigs =
           [\<lparr>Name = ''os disk exclude filter'', Key = ''os-disk-exclude-filter'', State = True,
               Include = [], Exclude = strings_Join defaultMountExcludes '',''\<rparr>,
            \<lparr>Name = ''vendor filter'', Key = ''vendor-filter'', State = True,
               Include = [], Exclude = strings_Join defaultVendorExcludes '',''\<rparr>,
            \<lparr>Name = ''path filter'', Key = ''path-filter'', State = True,
               Include = [], Exclude = strings_Join defaultDeviceExcludes '',''\<rparr>]\<rparr>,
      cells = []\<rparr>"

definition Apply :: "PersistentStorage \<Rightarrow> ndm_memory \<Rightarrow> ndm_memory" where
  "Apply ps h =
     SetDeviceExcludes (GetDeviceExcludes ps)
       (SetDeviceIncludes (GetDeviceIncludes ps)
          (SetVendorExcludes (GetVendorExcludes ps)
             (SetVendorIncludes (GetVendorIncludes ps)
                (SetMountExcludes (GetMountExcludes ps) h))))"

text \<open>A persistent storage resource with five non-empty lists without commas.\<close>

definition example_storage :: PersistentStorage where
  "example_storage =
     \<lparr>GetMountExcludes = [''/mnt''], GetVendorIncludes = [''ACME''],
      GetVendorExcludes = [''CLOUDBYT''], GetDeviceIncludes = [''/dev/sdb''],
      GetDeviceExcludes = [''loop'', ''/dev/sr0'']\<rparr>"

section \<open>Command line reconstruction: \<open>updateCommandWithFlags\<close>\<close>

text \<open>
  An element of kingpin's parse context, by the dynamic type of its \<open>Clause\<close>:
  \<^item> \<open>ArgElement v\<close>: an \<open>*kingpin.ArgClause\<close> with \<open>*el.Value = v\<close>;
  \<^item> \<open>FlagElement n b v\<close>: a \<open>*kingpin.FlagClause\<close> whose model has the name \<open>n\<close> and a
    value that implements \<open>boolFlag\<close> exactly when \<open>b\<close>, with \<open>*el.Value = v\<close>;
  \<^item> \<open>CmdElement\<close>: a \<open>*kingpin.CmdClause\<close>, which the type switch passes over.
  The parser sets \<open>Value\<close> for every argument and flag it matches, so the element carries it.
\<close>

datatype ParseElement = ArgElement string | FlagElement string bool string | CmdElement

text \<open>The parse context: \<open>SelectedCommand\<close> stands for \<open>ctx.SelectedCommand.FullCommand()\<close>.\<close>

record ParseContext =
  SelectedCommand :: string
  Elements :: "ParseElement list"

text \<open>The struct \<open>flag\<close>, with its fields \<open>name\<close> and \<open>value\<close>.\<close>

record flag =
  flag_name :: string
  flag_value :: string

text \<open>
  The slice \<open>flagsToAdd\<close>: its backing array and its length. The array keeps the length it
  had at the call; \<open>append(flagsToAdd[:i], flagsToAdd[i+1:]...)\<close> moves the elements after
  \<open>i\<close> one place down inside it and leaves its last live element where it was.
\<close>

type_synonym flag_slice = "flag list \<times> nat"

text \<open>
  One iteration of \<open>for i, flag := range flagsToAdd\<close> for a flag clause named \<open>n\<close>. The
  element read is \<open>i\<close> of the array (the range expression was evaluated before the loop);
  the slice expression \<open>flagsToAdd[i+1:]\<close> panics when \<open>i + 1\<close> is beyond the current
  length: the result \<open>None\<close>.
\<close>

fun remove_at :: "string \<Rightarrow> nat \<Rightarrow> flag_slice \<Rightarrow> flag_slice option" where
  "remove_at n i (arr, len) =
     (if flag_name (arr ! i) = n
      then (if len < i + 1 then None
            else Some (take i arr @ drop (i + 1) (take len arr) @ drop (len - 1) arr, len - 1))
      else Some (arr, len))"

fun range_remove :: "string \<Rightarrow> nat list \<Rightarrow> flag_slice \<Rightarrow> flag_slice option" where
  "range_remove n [] s = Some s"
| "range_remove n (i # js) s =
     (case remove_at n i s of None \<Rightarrow> None | Some s' \<Rightarrow> range_remove n js s')"

text \<open>What the type switch appends to \<open>args\<close> for one element.\<close>

fun element_args :: "ParseElement \<Rightarrow> string list" where
  "element_args (ArgElement v) = [strconv_Quote v]"
| "element_args (FlagElement n b v) =
     (if b then [''--'' @ n] else [''--'' @ n, strconv_Quote v])"
| "element_args CmdElement = []"

text \<open>The loop over \<open>ctx.Elements\<close>: the arguments so far and the slice \<open>flagsToAdd\<close>; the
  inner loop ranges over the indices of the slice as it is when the loop starts.\<close>

fun elements_loop ::
  "ParseElement list \<Rightarrow> string list \<Rightarrow> flag_slice \<Rightarrow> (string list \<times> flag_slice) option" where
  "elements_loop [] args s = Some (args, s)"
| "elements_loop (ArgElement v # els) args s =
     elements_loop els (args @ element_args (ArgElement v)) s"
| "elements_loop (CmdElement # els) args s = elements_loop els args s"
| "elements_loop (FlagElement n b v # els) args s =
     (case range_remove n [0..<snd s] s of
        None \<Rightarrow> None
      | Some s' \<Rightarrow> elements_loop els (args @ element_args (FlagElement n b v)) s')"

definition flag_args :: "flag \<Rightarrow> string list" where
  "flag_args f = [''--'' @ flag_name f, strconv_Quote (flag_value f)]"

datatype failure = ParseFailed go_error | SliceBoundsPanic

text \<open>
  \<open>updateCommandWithFlags\<close>, with the parser a parameter as in the source. A parse error is
  returned wrapped; a panic of the removal loop is the failure \<open>SliceBoundsPanic\<close>; otherwise
  the result is the selected command, the arguments collected from the elements and, for
  every flag left in \<open>flagsToAdd\<close>, its name and its quoted value. (The warning logged on a
  parse error is not modelled.)
\<close>

definition updateCommandWithFlags ::
  "string list \<Rightarrow> (string list \<Rightarrow> go_error + ParseContext) \<Rightarrow> flag list \<Rightarrow> failure + string list" where
  "updateCommandWithFlags command parser flagsToAdd =
     (case parser command of
        Inl err \<Rightarrow> Inl (ParseFailed (trace_Wrap err))
      | Inr ctx \<Rightarrow>
          (case elements_loop (Elements ctx) [] (flagsToAdd, length flagsToAdd) of
             None \<Rightarrow> Inl SliceBoundsPanic
           | Some (args, (arr, len)) \<Rightarrow>
               Inr (SelectedCommand ctx # args @ concat (map flag_args (take len arr)))))"

text \<open>The parse of the command line \<open>install --token abc\<close>: the command, then the string
  flag \<open>--token\<close> with its value.\<close>

definition install_line :: ParseContext where
  "install_line =
     \<lparr>SelectedCommand = ''install'',
      Elements = [CmdElement, FlagElement ''token'' False ''abc'']\<rparr>"

text \<open>The names of the flags present in a parsed command line, in order.\<close>

fun present_flag_names :: "ParseElement list \<Rightarrow> string list" where
  "present_flag_names [] = []"
| "present_flag_names (FlagElement n b v # els) = n # present_flag_names els"
| "present_flag_names (ArgElement v # els) = present_flag_names els"
| "present_flag_names (CmdElement # els) = present_flag_names els"

section \<open>Properties\<close>

subsection \<open>Strings\<close>

lemma strings_Contains_sublist: "strings_Contains s sub = sublist sub s"
  by (induction s) (auto simp: sublist_Cons_right)

lemma split_byte_append:
  "sep \<notin> set x \<Longrightarrow> split_byte sep acc (x @ s) = split_byte sep (rev x @ acc) s"
  by (induction x arbitrary: acc) auto

text \<open>Splitting what was joined gives the list back, for a non-empty list of strings
  without the separator.\<close>

lemma strings_Split_Join:
  assumes "xs \<noteq> []" and "\<forall>x \<in> set xs. sep \<notin> set x"
  shows "strings_Split (strings_Join xs [sep]) sep = xs"
  using assms unfolding strings_Split_def
proof (induction xs "[sep]" rule: strings_Join.induct)
  case 1
  then show ?case by simp
next
  case (2 x)
  then show ?case using split_byte_append [of sep x "[]" "[]"] by simp
next
  case (3 x y xs)
  then show ?case
    using split_byte_append [of sep x "[]" "sep # strings_Join (y # xs) [sep]"] by simp
qed

subsection \<open>Error classification\<close>

lemma PermanentError_neq: "PermanentError e \<noteq> e"
proof
  assume "PermanentError e = e"
  then have "size (PermanentError e) = size e" by simp
  then show False by simp
qed

text \<open>
  C3. For a non-nil error, \<open>ShouldReconnectPeer\<close> returns the permanent wrapper around the
  error exactly when the error's message contains "peer not authorized", the license limit
  message or one of the two hostname-already-registered messages; every other error comes
  back unchanged, and the wrapper is never the error itself.
\<close>

theorem ShouldReconnectPeer_classifies:
  "ShouldReconnectPeer err =
     (if strings_Contains (Error err) ''peer not authorized'' \<or>
         strings_Contains (Error err) ''license allows maximum of'' \<or>
         strings_Contains (Error err) ''One of existing peers already has hostname'' \<or>
         strings_Contains (Error err) ''One of existing servers already has hostname''
      then PermanentError err else err)
   \<and> PermanentError err \<noteq> err"
  using PermanentError_neq [of err]
  by (simp add: ShouldReconnectPeer_def isPeerDeniedError_def isLicenseError_def
      isHostAlreadyRegisteredError_def)

theorem ShouldReconnectPeer_classifies_witness:
  "ShouldReconnectPeer (TraceErr [] (ErrorString ''rpc: peer not authorized'')) =
     PermanentError (TraceErr [] (ErrorString ''rpc: peer not authorized''))"
  using ShouldReconnectPeer_classifies [of "TraceErr [] (ErrorString ''rpc: peer not authorized'')"]
  by simp

text \<open>
  C4. \<open>IsTransientClusterError\<close> is false for \<open>nil\<close>; for a non-nil error it is true exactly
  when the unwrapped error is a connection problem, its message contains "connection reset by
  peer" or "connection refused", the error's user message carries one of the two etcd cluster
  messages, the unwrapped error is an etcd cluster error, or it is a Kubernetes status of
  code 500 whose message carries one of the two etcd cluster messages.
\<close>

theorem IsTransientClusterError_iff:
  "IsTransientClusterError None = False \<and>
   IsTransientClusterError (Some err) =
     (is_ConnectionProblemError (trace_Unwrap err) \<or>
      strings_Contains (Error (trace_Unwrap err)) ''connection reset by peer'' \<or>
      strings_Contains (Error (trace_Unwrap err)) ''connection refused'' \<or>
      strings_Contains (Error err) ''etcd cluster is unavailable or misconfigured'' \<or>
      (strings_Contains (Error err) ''etcd member'' \<and>
       strings_Contains (Error err) ''has no leader'') \<or>
      is_ClusterError (trace_Unwrap err) \<or>
      (\<exists>reason m. trace_Unwrap err = StatusError 500 reason m \<and>
         (strings_Contains m ''etcd cluster is unavailable or misconfigured'' \<or>
          (strings_Contains m ''etcd member'' \<and> strings_Contains m ''has no leader''))))"
proof -
  have k: "isKubernetesEtcdClusterError_orig e =
      (\<exists>reason m. e = StatusError 500 reason m \<and> isEtcdClusterErrorMessage m)" for e
    by (cases e) auto
  have "IsTransientClusterError (Some err) =
      (trace_IsConnectionProblem err \<or> IsConnectionResetError err \<or>
       IsConnectionRefusedError err \<or> IsClusterUnavailableError err \<or>
       isEtcdClusterError err \<or> isKubernetesEtcdClusterError err)"
    by simp
  then show ?thesis
    unfolding trace_IsConnectionProblem_def
      IsConnectionResetError_def IsConnectionRefusedError_def IsClusterUnavailableError_def
      isEtcdClusterError_def isKubernetesEtcdClusterError_def k
      isEtcdClusterErrorMessage_def isEtcdClusterMisconfigured_def
      isEtcdClusterHasNoLeader_def trace_UserMessage.simps IsTransientClusterError.simps(1)
    by blast
qed

theorem IsTransientClusterError_iff_witness:
  "IsTransientClusterError
     (Some (TraceErr [] (ErrorString ''etcd cluster is unavailable or misconfigured''))) = True"
  using IsTransientClusterError_iff
    [of "TraceErr [] (ErrorString ''etcd cluster is unavailable or misconfigured'')"]
  by simp

text \<open>
  C7. \<open>IsContextCancelledError\<close> is true exactly when the unwrapped error is
  \<open>context.Canceled\<close> itself or a connection problem whose cause is \<open>context.Canceled\<close>; a
  raw \<open>context.Canceled\<close> is cancelled, \<open>nil\<close> is not.
\<close>

theorem IsContextCancelledError_iff:
  "IsContextCancelledError e =
     (\<exists>err. e = Some err \<and>
        (trace_Unwrap err = ContextCanceled \<or>
         (\<exists>m. trace_Unwrap err = ConnectionProblemError m (Some ContextCanceled))))
   \<and> IsContextCancelledError (Some ContextCanceled)
   \<and> \<not> IsContextCancelledError None"
proof -
  have o: "IsContextCancelledError_orig x =
      (x = ContextCanceled \<or> (\<exists>m. x = ConnectionProblemError m (Some ContextCanceled)))" for x
    by (cases x) auto
  show ?thesis
    by (cases e) (simp_all add: o)
qed

theorem IsContextCancelledError_iff_witness:
  "IsContextCancelledError
     (Some (TraceErr [] (ConnectionProblemError ''dial'' (Some ContextCanceled)))) = True
   \<and> IsContextCancelledError (Some (ErrorString ''context canceled'')) = False"
  using IsContextCancelledError_iff
      [of "Some (TraceErr [] (ConnectionProblemError ''dial'' (Some ContextCanceled)))"]
    IsContextCancelledError_iff [of "Some (ErrorString ''context canceled'')"]
  by simp

text \<open>
  C9. For a non-nil error \<open>err\<close> and an exit code \<open>c\<close>, \<open>WrapExitCodeError c err\<close> has the
  methods of the interface \<open>ExitCodeError\<close>, its \<open>ExitCode()\<close> is \<open>c\<close>, its \<open>Error()\<close> is the
  message of \<open>err\<close> and its \<open>OrigError()\<close> is \<open>err\<close>; \<open>NewExitCodeError 0\<close> is \<open>nil\<close>.
\<close>

theorem WrapExitCodeError_preserves:
  "implements_ExitCodeError (WrapExitCodeError c (Some err)) \<and>
   ExitCode (WrapExitCodeError c (Some err)) = Some c \<and>
   Error (WrapExitCodeError c (Some err)) = Error err \<and>
   OrigError (WrapExitCodeError c (Some err)) = Some err \<and>
   NewExitCodeError 0 = None"
  by (simp add: WrapExitCodeError_def NewExitCodeError_def implements_ExitCodeError_def)

theorem WrapExitCodeError_preserves_witness:
  "ExitCode (WrapExitCodeError 3 (Some (ErrorString ''disk full''))) = Some 3 \<and>
   Error (WrapExitCodeError 3 (Some (ErrorString ''disk full''))) = ''disk full'' \<and>
   OrigError (WrapExitCodeError 3 (Some (ErrorString ''disk full''))) =
     Some (ErrorString ''disk full'')"
  using WrapExitCodeError_preserves [of 3 "ErrorString ''disk full''"] by simp

subsection \<open>Agent coordination\<close>

lemma watchReconnects_skips:
  "\<forall>e \<in> set pre. Error_ev e = None \<Longrightarrow>
   watchReconnects (pre @ rest) = map Receive pre @ watchReconnects rest"
  by (induction pre) auto

lemma watchReconnects_count:
  "count_list (watchReconnects evs) Cancel =
     (if \<exists>e \<in> set evs. Error_ev e \<noteq> None then 1 else 0)"
  by (induction evs) (auto split: option.splits)

text \<open>
  C1. Over any finite stream of events, \<open>watchReconnects\<close> receives the events up to and
  including the first one whose error is not \<open>nil\<close> and nothing after it; it calls \<open>cancel\<close>
  once, as its last action and right after receiving and logging that event, when there is
  such an event, and never when every event has a \<open>nil\<close> error.
\<close>

theorem watchReconnects_cancels_once:
  "((\<forall>e \<in> set evs. Error_ev e = None) \<longrightarrow> watchReconnects evs = map Receive evs) \<and>
   (\<forall>pre e err later.
      evs = pre @ e # later \<and> (\<forall>x \<in> set pre. Error_ev x = None) \<and> Error_ev e = Some err \<longrightarrow>
      watchReconnects evs = map Receive pre @ [Receive e, Warnf (Peer e) err, Cancel]) \<and>
   count_list (watchReconnects evs) Cancel =
     (if \<exists>e \<in> set evs. Error_ev e \<noteq> None then 1 else 0)"
proof (intro conjI allI impI)
  assume "\<forall>e \<in> set evs. Error_ev e = None"
  then show "watchReconnects evs = map Receive evs"
    using watchReconnects_skips [of evs "[]"] by simp
next
  fix pre e err later
  assume "evs = pre @ e # later \<and> (\<forall>x \<in> set pre. Error_ev x = None) \<and> Error_ev e = Some err"
  then show "watchReconnects evs = map Receive pre @ [Receive e, Warnf (Peer e) err, Cancel]"
    using watchReconnects_skips [of pre "e # later"] by simp
next
  show "count_list (watchReconnects evs) Cancel =
     (if \<exists>e \<in> set evs. Error_ev e \<noteq> None then 1 else 0)"
    by (rule watchReconnects_count)
qed

theorem watchReconnects_cancels_once_witness:
  "watchReconnects
     [\<lparr>Peer = ''10.0.0.5'', Error_ev = None\<rparr>,
      \<lparr>Peer = ''10.0.0.5'', Error_ev = Some (ErrorString ''connection lost'')\<rparr>,
      \<lparr>Peer = ''10.0.0.6'', Error_ev = Some (ErrorString ''connection lost'')\<rparr>] =
     [Receive \<lparr>Peer = ''10.0.0.5'', Error_ev = None\<rparr>,
      Receive \<lparr>Peer = ''10.0.0.5'', Error_ev = Some (ErrorString ''connection lost'')\<rparr>,
      Warnf ''10.0.0.5'' (ErrorString ''connection lost''),
      Cancel]
   \<and> count_list (watchReconnects
     [\<lparr>Peer = ''10.0.0.5'', Error_ev = None\<rparr>,
      \<lparr>Peer = ''10.0.0.5'', Error_ev = Some (ErrorString ''connection lost'')\<rparr>,
      \<lparr>Peer = ''10.0.0.6'', Error_ev = Some (ErrorString ''connection lost'')\<rparr>]) Cancel = 1"
proof -
  let ?a = "\<lparr>Peer = ''10.0.0.5'', Error_ev = None\<rparr>"
  let ?b = "\<lparr>Peer = ''10.0.0.5'', Error_ev = Some (ErrorString ''connection lost'')\<rparr>"
  let ?c = "\<lparr>Peer = ''10.0.0.6'', Error_ev = Some (ErrorString ''connection lost'')\<rparr>"
  note T = watchReconnects_cancels_once [of "[?a, ?b, ?c]"]
  have h: "[?a, ?b, ?c] = [?a] @ ?b # [?c] \<and> (\<forall>x \<in> set [?a]. Error_ev x = None) \<and>
      Error_ev ?b = Some (ErrorString ''connection lost'')"
    by simp
  from T [THEN conjunct2, THEN conjunct1, THEN spec, THEN spec, THEN spec, THEN spec, THEN mp, OF h]
    T [THEN conjunct2, THEN conjunct2]
  show ?thesis by simp
qed

subsection \<open>The OpenEBS phase\<close>

text \<open>
  C6. \<open>Rollback\<close> of the OpenEBS phase returns \<open>nil\<close> when deleting the config map answers
  with a not-found status (or succeeds), and for every other failure of the delete it returns
  that failure, converted and wrapped.
\<close>

theorem openebs_Rollback_not_found_ok:
  "openebs_Rollback (Some (StatusError 404 reason m)) = None \<and>
   openebs_Rollback None = None \<and>
   (rigging_ConvertError (Some e) = Some err \<and> \<not> trace_IsNotFound err \<longrightarrow>
      openebs_Rollback (Some e) = Some (trace_Wrap err)) \<and>
   (rigging_ConvertError (Some e) = Some err \<and> trace_IsNotFound err \<longrightarrow>
      openebs_Rollback (Some e) = None)"
  by (simp add: openebs_Rollback_def trace_IsNotFound_def trace_NotFound_def)

theorem openebs_Rollback_not_found_ok_witness:
  "openebs_Rollback (Some (StatusError 403 ''Forbidden'' ''configmaps is forbidden'')) =
     Some (TraceErr [] (AccessDeniedError ''configmaps is forbidden''))
   \<and> openebs_Rollback (Some (TraceErr [] (NotFoundError ''no config map''))) = None"
  using openebs_Rollback_not_found_ok
      [of _ _ "StatusError 403 ''Forbidden'' ''configmaps is forbidden''"
         "TraceErr [] (AccessDeniedError ''configmaps is forbidden'')"]
    openebs_Rollback_not_found_ok
      [of _ _ "TraceErr [] (NotFoundError ''no config map'')"
         "TraceErr [] (NotFoundError ''no config map'')"]
  by (simp add: trace_IsNotFound_def trace_AccessDenied_def)

subsection \<open>Dispatch\<close>

lemma trace_Wrap_idem: "trace_Wrap (trace_Wrap e) = trace_Wrap e"
  by (cases e) simp_all

lemma first_match_case_Cons:
  "(case first_match ((m, f) # t) pid of None \<Rightarrow> a | Some g \<Rightarrow> b g) =
     (if matches m pid then b f else (case first_match t pid of None \<Rightarrow> a | Some g \<Rightarrow> b g))"
  by simp

lemma if_disj: "(if a \<or> b then x else y) = (if a then x else if b then x else y)"
  by simp

lemma acquire_kube:
  "f = NewWait \<or> f = NewRBAC \<or> f = NewCorednsPhase \<or> f = NewSystemResources \<Longrightarrow>
   (case acquire env f of Some err \<Rightarrow> Inl err | None \<Rightarrow> Inr f) =
   (case getKubeClient env of Some err \<Rightarrow> Inl (trace_Wrap err) | None \<Rightarrow> Inr f)"
  by (auto simp: acquire_def split: option.splits)

lemma acquire_gravity:
  "(case acquire env NewGravityResourcesPhase of Some err \<Rightarrow> Inl err | None \<Rightarrow> Inr NewGravityResourcesPhase) =
   (case LocalClusterClient env of
           Some err \<Rightarrow> Inl (trace_Wrap err)
         | None \<Rightarrow>
             (case gravity_New env of
                Some err \<Rightarrow> Inl (trace_Wrap err)
              | None \<Rightarrow> Inr NewGravityResourcesPhase))"
  by (auto simp: acquire_def split: option.splits)

lemma acquire_none:
  "f \<in> {NewInit, NewChecks, NewConfigure, NewBootstrap, NewPull, NewSystem, NewHealth,
      NewUserResources, NewExport, NewApp, NewConnectInstaller, NewEnableElectionPhase, NewHook} \<Longrightarrow>
   (case acquire env f of Some err \<Rightarrow> Inl err | None \<Rightarrow> Inr f) = Inr f"
  by (auto simp: acquire_def)

lemma FSMSpec_Resolve: "FSMSpec c env pid = Resolve c env pid"
  unfolding FSMSpec_def Resolve_def phase_table_def
  by (simp add: first_match_case_Cons acquire_kube acquire_gravity acquire_none if_disj
      del: first_match.simps(2) split del: if_split cong: if_cong)


lemma prefix_comparable: "prefix p s \<Longrightarrow> prefix q s \<Longrightarrow> prefix p q \<or> prefix q p"
  by (metis prefix_same_cases)

lemma first_match_None: "(first_match t pid = None) = (\<forall>(m, f) \<in> set t. \<not> matches m pid)"
  by (induction t pid rule: first_match.induct) auto

lemma FSMSpec_checks:
  "\<not> prefix (InitPhase c) (ChecksPhase c) \<Longrightarrow> FSMSpec c env (ChecksPhase c) = Inr NewChecks"
  by (simp add: FSMSpec_def)

lemma FSMSpec_system:
  assumes "\<not> prefix (InitPhase c) pid" "pid \<noteq> ChecksPhase c" "pid \<noteq> ConfigurePhase c"
    "\<not> prefix (BootstrapPhase c) pid" "\<not> prefix (PullPhase c) pid"
    "prefix (MastersPhase c) pid \<or> prefix (NodesPhase c) pid"
  shows "FSMSpec c env pid = Inr NewSystem"
  unfolding FSMSpec_def using assms by (simp split del: if_split)

lemma FSMSpec_unknown:
  assumes "first_match (phase_table c) pid = None"
  shows "FSMSpec c env pid = Inl (trace_BadParameter (''unknown phase '' @ strconv_Quote pid))"
  unfolding FSMSpec_Resolve Resolve_def using assms by simp


text \<open>
  C2. \<open>FSMSpec\<close> is a first match over the ordered table of prefix and exact matchers.
  When the phase constants are unambiguous for these routes, every identifier with the
  masters prefix or the nodes prefix resolves to the one system factory and the checks
  identifier resolves to the checks factory; an identifier no table entry matches gets no
  executor and the bad-parameter error that names the unknown phase.
\<close>

theorem FSMSpec_first_match:
  assumes "routes_unambiguous c"
  shows "FSMSpec c env pid = Resolve c env pid \<and>
    (prefix (MastersPhase c) pid \<or> prefix (NodesPhase c) pid \<longrightarrow>
       FSMSpec c env pid = Inr NewSystem) \<and>
    FSMSpec c env (ChecksPhase c) = Inr NewChecks \<and>
    ((\<forall>(m, f) \<in> set (phase_table c). \<not> matches m pid) \<longrightarrow>
       FSMSpec c env pid =
         Inl (trace_BadParameter (''unknown phase '' @ strconv_Quote pid)))"
proof -
  have u: "\<not> prefix (InitPhase c) (MastersPhase c)" "\<not> prefix (MastersPhase c) (InitPhase c)"
    "\<not> prefix (BootstrapPhase c) (MastersPhase c)" "\<not> prefix (MastersPhase c) (BootstrapPhase c)"
    "\<not> prefix (PullPhase c) (MastersPhase c)" "\<not> prefix (MastersPhase c) (PullPhase c)"
    "\<not> prefix (InitPhase c) (NodesPhase c)" "\<not> prefix (NodesPhase c) (InitPhase c)"
    "\<not> prefix (BootstrapPhase c) (NodesPhase c)" "\<not> prefix (NodesPhase c) (BootstrapPhase c)"
    "\<not> prefix (PullPhase c) (NodesPhase c)" "\<not> prefix (NodesPhase c) (PullPhase c)"
    "\<not> prefix (MastersPhase c) (ChecksPhase c)" "\<not> prefix (MastersPhase c) (ConfigurePhase c)"
    "\<not> prefix (NodesPhase c) (ChecksPhase c)" "\<not> prefix (NodesPhase c) (ConfigurePhase c)"
    "\<not> prefix (InitPhase c) (ChecksPhase c)"
    using assms unfolding routes_unambiguous_def by simp_all
  have sys: "FSMSpec c env pid = Inr NewSystem"
    if h: "prefix (MastersPhase c) pid \<or> prefix (NodesPhase c) pid"
  proof (rule FSMSpec_system [OF _ _ _ _ _ h])
    show "\<not> prefix (InitPhase c) pid"
      using h u prefix_comparable [of "InitPhase c" pid] by blast
    show "\<not> prefix (BootstrapPhase c) pid"
      using h u prefix_comparable [of "BootstrapPhase c" pid] by blast
    show "\<not> prefix (PullPhase c) pid"
      using h u prefix_comparable [of "PullPhase c" pid] by blast
    show "pid \<noteq> ChecksPhase c" using h u by blast
    show "pid \<noteq> ConfigurePhase c" using h u by blast
  qed
  have unk: "FSMSpec c env pid =
      Inl (trace_BadParameter (''unknown phase '' @ strconv_Quote pid))"
    if "\<forall>(m, f) \<in> set (phase_table c). \<not> matches m pid"
    using that by (simp add: FSMSpec_unknown first_match_None)
  show ?thesis
  proof (intro conjI impI)
    show "FSMSpec c env pid = Resolve c env pid" by (rule FSMSpec_Resolve)
    show "FSMSpec c env (ChecksPhase c) = Inr NewChecks" by (rule FSMSpec_checks [OF u(17)])
  qed (fact sys unk)+
qed

lemma example_phases_unambiguous: "routes_unambiguous example_phases"
  by (simp add: routes_unambiguous_def example_phases_def)

theorem FSMSpec_first_match_witness:
  "routes_unambiguous example_phases \<and>
   FSMSpec example_phases no_failures ''masters/1'' = Inr NewSystem \<and>
   FSMSpec example_phases no_failures ''masters/2'' = Inr NewSystem \<and>
   FSMSpec example_phases no_failures ''nodes/1'' = Inr NewSystem \<and>
   FSMSpec example_phases no_failures ''checks'' = Inr NewChecks \<and>
   FSMSpec example_phases no_failures ''bogus/1'' =
     Inl (TraceErr [] (BadParameterError (''unknown phase '' @ [CHR 0x22] @ ''bogus/1'' @ [CHR 0x22])))"
proof -
  have m1: "prefix (MastersPhase example_phases) ''masters/1''"
    and m2: "prefix (MastersPhase example_phases) ''masters/2''"
    and n1: "prefix (NodesPhase example_phases) ''nodes/1''"
    and ck: "ChecksPhase example_phases = ''checks''"
    by (simp_all add: example_phases_def)
  have bogus: "\<forall>(m, f) \<in> set (phase_table example_phases). \<not> matches m ''bogus/1''"
    by (simp add: phase_table_def example_phases_def)
  have q: "strconv_Quote ''bogus/1'' = [CHR 0x22] @ ''bogus/1'' @ [CHR 0x22]"
    by (simp add: strconv_Quote_def quote_byte_def)
  note T = FSMSpec_first_match [OF example_phases_unambiguous]
  note sys = T [THEN conjunct2, THEN conjunct1, THEN mp]
  have "FSMSpec example_phases no_failures ''masters/1'' = Inr NewSystem"
    and "FSMSpec example_phases no_failures ''masters/2'' = Inr NewSystem"
    and "FSMSpec example_phases no_failures ''nodes/1'' = Inr NewSystem"
    using sys [of "''masters/1''" no_failures] sys [of "''masters/2''" no_failures] sys [of "''nodes/1''" no_failures]
      m1 m2 n1 by blast+
  moreover have "FSMSpec example_phases no_failures ''checks'' = Inr NewChecks"
    using T [of no_failures "[]", THEN conjunct2, THEN conjunct2, THEN conjunct1] unfolding ck .
  moreover have "FSMSpec example_phases no_failures ''bogus/1'' =
      Inl (TraceErr [] (BadParameterError (''unknown phase '' @ [CHR 0x22] @ ''bogus/1'' @ [CHR 0x22])))"
    using T [of no_failures "''bogus/1''", THEN conjunct2, THEN conjunct2, THEN conjunct2, THEN mp, OF bogus]
    unfolding q trace_BadParameter_def .
  ultimately show ?thesis
    using example_phases_unambiguous by blast
qed

subsection \<open>Node disk manager configuration\<close>

lemma Set_config:
  "config (SetMountExcludes xs h) = config h"
  "config (SetVendorIncludes xs h) = config h"
  "config (SetVendorExcludes xs h) = config h"
  "config (SetDeviceIncludes xs h) = config h"
  "config (SetDeviceExcludes xs h) = config h"
  by (simp_all add: SetMountExcludes_def SetVendorIncludes_def SetVendorExcludes_def
      SetDeviceIncludes_def SetDeviceExcludes_def getFilter_def split: option.splits prod.splits)

text \<open>The setters write to cells of their own: \<open>Apply\<close> leaves the configuration as it was.\<close>

lemma Apply_config: "config (Apply ps h) = config h"
  by (simp add: Apply_def Set_config)

lemma getters_config:
  "config h = config h' \<Longrightarrow> MountExcludes h = MountExcludes h'"
  "config h = config h' \<Longrightarrow> VendorIncludes h = VendorIncludes h'"
  "config h = config h' \<Longrightarrow> VendorExcludes h = VendorExcludes h'"
  "config h = config h' \<Longrightarrow> DeviceIncludes h = DeviceIncludes h'"
  "config h = config h' \<Longrightarrow> DeviceExcludes h = DeviceExcludes h'"
  by (simp_all add: MountExcludes_def VendorIncludes_def VendorExcludes_def
      DeviceIncludes_def DeviceExcludes_def getFilter_def split: option.splits)

lemma Apply_getters_unchanged:
  "MountExcludes (Apply ps h) = MountExcludes h"
  "VendorIncludes (Apply ps h) = VendorIncludes h"
  "VendorExcludes (Apply ps h) = VendorExcludes h"
  "DeviceIncludes (Apply ps h) = DeviceIncludes h"
  "DeviceExcludes (Apply ps h) = DeviceExcludes h"
  by (rule getters_config, rule Apply_config)+

text \<open>
  C10. After \<open>Apply\<close> of a persistent storage resource with five non-empty, comma-free
  lists to the default configuration, the five getters still return what the default
  configuration holds (for the two include lists, one empty string), not the lists of the
  resource: the round trip of the claim does not happen.
\<close>

theorem Apply_then_getters_default:
  "MountExcludes (Apply example_storage DefaultNDMConfig) = [''/'', ''/etc/hosts'', ''/boot''] \<and>
   VendorIncludes (Apply example_storage DefaultNDMConfig) = [[]] \<and>
   VendorExcludes (Apply example_storage DefaultNDMConfig) = [''CLOUDBYT'', ''OpenEBS''] \<and>
   DeviceIncludes (Apply example_storage DefaultNDMConfig) = [[]] \<and>
   DeviceExcludes (Apply example_storage DefaultNDMConfig) =
     [''loop'', ''/dev/fd0'', ''/dev/sr0'', ''/dev/ram'', ''/dev/dm-'', ''/dev/md''] \<and>
   GetMountExcludes example_storage = [''/mnt'']"
  by code_simp

subsection \<open>Command line reconstruction\<close>

lemma remove_at_set:
  "remove_at m i (arr, n) = Some (arr', n') \<Longrightarrow> set arr' \<subseteq> set arr"
  by (auto split: if_splits dest!: in_set_dropD in_set_takeD)

lemma range_remove_set:
  "range_remove m js (arr, n) = Some (arr', n') \<Longrightarrow> set arr' \<subseteq> set arr"
proof (induction js arbitrary: arr n)
  case Nil
  then show ?case by simp
next
  case (Cons i js)
  then obtain a k where s: "remove_at m i (arr, n) = Some (a, k)"
    and r: "range_remove m js (a, k) = Some (arr', n')"
    by (auto split: option.splits)
  from Cons.IH [OF r] remove_at_set [OF s] show ?case by blast
qed

lemma elements_loop_args:
  "elements_loop els args (arr, n) = Some (args', (arr', n')) \<Longrightarrow>
   args' = args @ concat (map element_args els) \<and> set arr' \<subseteq> set arr"
proof (induction els arbitrary: args arr n)
  case Nil
  then show ?case by simp
next
  case (Cons el els)
  show ?case
  proof (cases el)
    case (ArgElement v)
    with Cons.prems Cons.IH [of "args @ element_args el" arr n] show ?thesis by simp
  next
    case CmdElement
    with Cons.prems Cons.IH [of args arr n] show ?thesis by simp
  next
    case (FlagElement m b v)
    with Cons.prems obtain a k where r: "range_remove m [0..<n] (arr, n) = Some (a, k)"
      and e: "elements_loop els (args @ element_args el) (a, k) = Some (args', (arr', n'))"
      by (auto split: option.splits)
    from Cons.IH [OF e] range_remove_set [OF r] show ?thesis by auto
  qed
qed

lemma range_remove_noop:
  "\<forall>i \<in> set js. flag_name (arr ! i) \<noteq> m \<Longrightarrow> range_remove m js (arr, n) = Some (arr, n)"
  by (induction js) auto

lemma elements_loop_no_clash:
  assumes "n \<le> length arr"
    and "\<forall>m b v. FlagElement m b v \<in> set els \<longrightarrow> m \<notin> flag_name ` set (take n arr)"
  shows "elements_loop els args (arr, n) = Some (args @ concat (map element_args els), (arr, n))"
  using assms(2)
proof (induction els arbitrary: args)
  case Nil
  show ?case by simp
next
  case (Cons el els)
  have p: "\<forall>m b v. FlagElement m b v \<in> set els \<longrightarrow> m \<notin> flag_name ` set (take n arr)"
    using Cons.prems by auto
  note ih = Cons.IH [OF p]
  show ?case
  proof (cases el)
    case (ArgElement v)
    then show ?thesis using ih by simp
  next
    case (FlagElement m b v)
    have "m \<notin> flag_name ` set (take n arr)" using Cons.prems FlagElement by auto
    moreover have "arr ! i \<in> set (take n arr)" if "i < n" for i
      using that assms(1) by (metis length_take min.absorb2 nth_mem nth_take)
    ultimately have "\<forall>i \<in> set [0..<n]. flag_name (arr ! i) \<noteq> m"
      by auto
    then have "range_remove m [0..<n] (arr, n) = Some (arr, n)"
      by (rule range_remove_noop)
    then show ?thesis using ih FlagElement by simp
  next
    case CmdElement
    then show ?thesis using ih by simp
  qed
qed


lemma range_remove_append:
  "range_remove m (is @ js) s =
     (case range_remove m is s of None \<Rightarrow> None | Some s' \<Rightarrow> range_remove m js s')"
  by (induction "is" arbitrary: s) (auto split: option.splits)

lemma filter_distinct_nth:
  assumes "distinct (map f xs)" "k < length xs"
  shows "filter (\<lambda>x. f x \<noteq> f (xs ! k)) xs = take k xs @ drop (Suc k) xs"
proof -
  have xs: "xs = take k xs @ xs ! k # drop (Suc k) xs"
    using assms(2) by (simp add: id_take_nth_drop)
  have d: "distinct (map f (take k xs) @ f (xs ! k) # map f (drop (Suc k) xs))"
    using assms(1) xs by (metis list.simps(9) map_append)
  then have "f (xs ! k) \<notin> f ` set (take k xs)" "f (xs ! k) \<notin> f ` set (drop (Suc k) xs)"
    by auto
  then have "\<forall>x \<in> set (take k xs). f x \<noteq> f (xs ! k)"
    and "\<forall>x \<in> set (drop (Suc k) xs). f x \<noteq> f (xs ! k)"
    by (metis imageI)+
  then have "filter (\<lambda>x. f x \<noteq> f (xs ! k)) (take k xs @ xs ! k # drop (Suc k) xs) =
      take k xs @ drop (Suc k) xs"
    by (simp add: filter_id_conv)
  with xs show ?thesis by metis
qed

lemma range_remove_distinct:
  assumes n: "n \<le> length arr" and d: "distinct (map flag_name (take n arr))"
  shows "\<exists>arr' n'. range_remove m [0..<n] (arr, n) = Some (arr', n') \<and>
      length arr' = length arr \<and> n' \<le> n \<and>
      take n' arr' = filter (\<lambda>f. flag_name f \<noteq> m) (take n arr)"
proof (cases "m \<in> flag_name ` set (take n arr)")
  case False
  have "arr ! i \<in> set (take n arr)" if "i < n" for i
    using that n by (metis length_take min.absorb2 nth_mem nth_take)
  with False have "\<forall>i \<in> set [0..<n]. flag_name (arr ! i) \<noteq> m" by auto
  then have "range_remove m [0..<n] (arr, n) = Some (arr, n)" by (rule range_remove_noop)
  moreover have "filter (\<lambda>f. flag_name f \<noteq> m) (take n arr) = take n arr"
    using False by (auto simp: filter_id_conv)
  ultimately show ?thesis by auto
next
  case True
  then obtain k where k: "k < n" and mk: "flag_name (arr ! k) = m"
    using n by (auto simp: in_set_conv_nth)
  have uniq: "flag_name (arr ! j) \<noteq> m" if "j < n" "j \<noteq> k" for j
  proof
    assume "flag_name (arr ! j) = m"
    then have "map flag_name (take n arr) ! j = map flag_name (take n arr) ! k"
      using that k n mk by simp
    moreover have "j < length (map flag_name (take n arr))" "k < length (map flag_name (take n arr))"
      using that k n by simp_all
    ultimately have "j = k" using d nth_eq_iff_index_eq by blast
    then show False using that by simp
  qed
  define arr' where "arr' = take k arr @ drop (k + 1) (take n arr) @ drop (n - 1) arr"
  have len: "length arr' = length arr" using k n by (simp add: arr'_def)
  have split_range: "[0..<n] = [0..<k] @ k # [Suc k..<n]"
    using k upt_add_eq_append [of 0 k "n - k"] upt_conv_Cons [of k n] by simp
  have pre: "range_remove m [0..<k] (arr, n) = Some (arr, n)"
    using uniq k by (intro range_remove_noop) auto
  have at: "remove_at m k (arr, n) = Some (arr', n - 1)"
    using k mk by (simp add: arr'_def)
  have later: "flag_name (arr' ! j) \<noteq> m" if j: "k < j" "j < n" for j
  proof (cases "j < n - 1")
    case True
    have "arr' ! j = arr ! Suc j"
      using j True k n by (simp add: arr'_def nth_append)
    then show ?thesis using uniq [of "Suc j"] True j by simp
  next
    case False
    then have jn: "j = n - 1" using j by simp
    have "arr' ! j = arr ! (n - 1)"
      using j k n jn by (simp add: arr'_def nth_append)
    then show ?thesis using uniq [of "n - 1"] j jn by simp
  qed
  have post: "range_remove m [Suc k..<n] (arr', n - 1) = Some (arr', n - 1)"
    using later by (intro range_remove_noop) auto
  have "range_remove m [0..<n] (arr, n) =
      (case range_remove m [0..<k] (arr, n) of
         None \<Rightarrow> None
       | Some s' \<Rightarrow> range_remove m (k # [Suc k..<n]) s')"
    using range_remove_append [of m "[0..<k]" "k # [Suc k..<n]" "(arr, n)"] split_range
    by simp
  also have "\<dots> = range_remove m (k # [Suc k..<n]) (arr, n)"
    by (simp only: pre option.case)
  also have "\<dots> = range_remove m [Suc k..<n] (arr', n - 1)"
    by (simp only: range_remove.simps at option.case)
  finally have run: "range_remove m [0..<n] (arr, n) = Some (arr', n - 1)"
    using post by simp
  have "take (n - 1) arr' = take k arr @ drop (Suc k) (take n arr)"
    using k n by (simp add: arr'_def)
  also have "\<dots> = take k (take n arr) @ drop (Suc k) (take n arr)"
    using k by (simp add: min_def)
  also have "\<dots> = filter (\<lambda>f. flag_name f \<noteq> flag_name (take n arr ! k)) (take n arr)"
    using filter_distinct_nth [OF d, of k] k n by simp
  also have "flag_name (take n arr ! k) = m" using k mk by simp
  finally show ?thesis using run len by auto
qed


lemma elements_loop_distinct:
  assumes "n \<le> length arr" and "distinct (map flag_name (take n arr))"
  shows "\<exists>arr' n'. elements_loop els args (arr, n) =
        Some (args @ concat (map element_args els), (arr', n')) \<and>
      take n' arr' =
        filter (\<lambda>f. flag_name f \<notin> set (present_flag_names els)) (take n arr)"
  using assms
proof (induction els arbitrary: args arr n)
  case Nil
  then show ?case by simp
next
  case (Cons el els)
  show ?case
  proof (cases el)
    case (ArgElement v)
    with Cons.IH [OF Cons.prems, of "args @ element_args el"] show ?thesis by simp
  next
    case CmdElement
    with Cons.IH [OF Cons.prems, of args] show ?thesis by simp
  next
    case (FlagElement m b v)
    from range_remove_distinct [OF Cons.prems, of m]
    obtain a k where r: "range_remove m [0..<n] (arr, n) = Some (a, k)"
      and la: "length a = length arr" and kn: "k \<le> n"
      and ta: "take k a = filter (\<lambda>f. flag_name f \<noteq> m) (take n arr)"
      by blast
    have k: "k \<le> length a" using la kn Cons.prems(1) by simp
    have d: "distinct (map flag_name (take k a))"
      unfolding ta using Cons.prems(2) by (rule distinct_map_filter)
    from Cons.IH [OF k d, of "args @ element_args el"]
    obtain arr' n' where
      e: "elements_loop els (args @ element_args el) (a, k) =
          Some ((args @ element_args el) @ concat (map element_args els), (arr', n'))"
      and t: "take n' arr' =
          filter (\<lambda>f. flag_name f \<notin> set (present_flag_names els)) (take k a)"
      by blast
    have "elements_loop (el # els) args (arr, n) =
        Some (args @ concat (map element_args (el # els)), (arr', n'))"
      using FlagElement r e by simp
    moreover have "take n' arr' =
        filter (\<lambda>f. flag_name f \<notin> set (present_flag_names (el # els))) (take n arr)"
      unfolding t ta FlagElement by (simp add: conj_commute)
    ultimately show ?thesis by blast
  qed
qed

text \<open>
  When the requested flags have pairwise distinct names, the removal loop removes exactly
  the requested flags whose name is present in the parsed line: the result is the selected
  command, the arguments of the parsed elements in their order, and the remaining requested
  flags, and no requested flag with a present name is appended.
\<close>

lemma updateCommandWithFlags_distinct:
  assumes "parser command = Inr ctx" and "distinct (map flag_name flagsToAdd)"
  shows "updateCommandWithFlags command parser flagsToAdd =
      Inr (SelectedCommand ctx # concat (map element_args (Elements ctx)) @
           concat (map flag_args
             (filter (\<lambda>f. flag_name f \<notin> set (present_flag_names (Elements ctx))) flagsToAdd)))"
proof -
  from elements_loop_distinct [of "length flagsToAdd" flagsToAdd "Elements ctx" "[]"] assms(2)
  obtain arr' n' where
    "elements_loop (Elements ctx) [] (flagsToAdd, length flagsToAdd) =
        Some (concat (map element_args (Elements ctx)), (arr', n'))"
    "take n' arr' =
        filter (\<lambda>f. flag_name f \<notin> set (present_flag_names (Elements ctx))) flagsToAdd"
    by auto
  then show ?thesis using assms(1) by (simp add: updateCommandWithFlags_def)
qed

lemma present_flag_names_iff:
  "(m \<in> set (present_flag_names els)) = (\<exists>b v. FlagElement m b v \<in> set els)"
  by (induction els rule: present_flag_names.induct) auto

lemma updateCommandWithFlags_no_clash:
  assumes "parser command = Inr ctx"
    and "\<forall>f \<in> set flagsToAdd. flag_name f \<notin> set (present_flag_names (Elements ctx))"
  shows "updateCommandWithFlags command parser flagsToAdd =
      Inr (SelectedCommand ctx # concat (map element_args (Elements ctx)) @
           concat (map flag_args flagsToAdd))"
proof -
  have "\<forall>m b v. FlagElement m b v \<in> set (Elements ctx) \<longrightarrow>
      m \<notin> flag_name ` set (take (length flagsToAdd) flagsToAdd)"
    using assms(2) present_flag_names_iff by auto
  from elements_loop_no_clash [OF _ this, of "[]"] assms(1)
  show ?thesis by (simp add: updateCommandWithFlags_def)
qed

lemma updateCommandWithFlags_format:
  assumes "parser command = Inr ctx"
    and "updateCommandWithFlags command parser flagsToAdd = Inr out"
  shows "\<exists>added. set added \<subseteq> set flagsToAdd \<and>
      out = SelectedCommand ctx # concat (map element_args (Elements ctx)) @
            concat (map flag_args added)"
proof -
  from assms obtain args arr n where
    e: "elements_loop (Elements ctx) [] (flagsToAdd, length flagsToAdd) = Some (args, (arr, n))"
    and o: "out = SelectedCommand ctx # args @ concat (map flag_args (take n arr))"
    by (auto simp: updateCommandWithFlags_def split: option.splits)
  from elements_loop_args [OF e]
  have "args = concat (map element_args (Elements ctx))" and "set arr \<subseteq> set flagsToAdd"
    by simp_all
  moreover have "set (take n arr) \<subseteq> set arr" by (rule set_take_subset)
  ultimately show ?thesis using o by blast
qed

text \<open>
  C5, as the claim states it: the requested flag \<open>insecure\<close> with the value \<open>true\<close> does not
  come out bare.
\<close>

theorem updateCommandWithFlags_bare_boolean_counterexample:
  "updateCommandWithFlags [''install'', ''--token'', ''abc''] (\<lambda>c. Inr install_line)
     [\<lparr>flag_name = ''insecure'', flag_value = ''true''\<rparr>] \<noteq>
   Inr [''install'', ''--token'', CHR 0x22 # ''abc'' @ [CHR 0x22], ''--insecure'']"
  by (simp add: updateCommandWithFlags_def install_line_def flag_args_def)

text \<open>
  C5, amended. Every requested flag that \<open>updateCommandWithFlags\<close> appends is emitted as its
  name followed by its quoted value, whether it is meant as a boolean or not (a requested
  flag has a name and a value and nothing else); only a flag already present in the parsed
  line whose clause is boolean is emitted bare. When no requested name is present in the
  parsed line, every requested flag is appended so. In particular the line
  \<open>install --token abc\<close> with the requested flag \<open>insecure\<close> of value \<open>true\<close> yields
  \<open>install --token "abc" --insecure "true"\<close>.
\<close>

theorem updateCommandWithFlags_added_flags_quoted:
  assumes "parser command = Inr ctx"
  shows
    "((\<forall>f \<in> set flagsToAdd. flag_name f \<notin> set (present_flag_names (Elements ctx))) \<longrightarrow>
        updateCommandWithFlags command parser flagsToAdd =
          Inr (SelectedCommand ctx # concat (map element_args (Elements ctx)) @
               concat (map (\<lambda>f. [''--'' @ flag_name f, strconv_Quote (flag_value f)])
                 flagsToAdd))) \<and>
     (\<forall>out. updateCommandWithFlags command parser flagsToAdd = Inr out \<longrightarrow>
        (\<exists>added. set added \<subseteq> set flagsToAdd \<and>
           out = SelectedCommand ctx # concat (map element_args (Elements ctx)) @
                 concat (map (\<lambda>f. [''--'' @ flag_name f, strconv_Quote (flag_value f)])
                   added))) \<and>
     element_args (FlagElement n True v) = [''--'' @ n] \<and>
     element_args (FlagElement n False v) = [''--'' @ n, strconv_Quote v] \<and>
     updateCommandWithFlags [''install'', ''--token'', ''abc''] (\<lambda>c. Inr install_line)
         [\<lparr>flag_name = ''insecure'', flag_value = ''true''\<rparr>] =
       Inr [''install'', ''--token'', CHR 0x22 # ''abc'' @ [CHR 0x22], ''--insecure'',
            CHR 0x22 # ''true'' @ [CHR 0x22]]"
proof -
  have fa: "flag_args = (\<lambda>f. [''--'' @ flag_name f, strconv_Quote (flag_value f)])"
    by (rule ext) (simp add: flag_args_def)
  have ex: "updateCommandWithFlags [''install'', ''--token'', ''abc''] (\<lambda>c. Inr install_line)
         [\<lparr>flag_name = ''insecure'', flag_value = ''true''\<rparr>] =
       Inr [''install'', ''--token'', CHR 0x22 # ''abc'' @ [CHR 0x22], ''--insecure'',
            CHR 0x22 # ''true'' @ [CHR 0x22]]"
    by (simp add: updateCommandWithFlags_def install_line_def flag_args_def strconv_Quote_def
        quote_byte_def)
  show ?thesis
    using assms updateCommandWithFlags_no_clash [of parser command ctx flagsToAdd]
      updateCommandWithFlags_format [of parser command ctx flagsToAdd] ex
    unfolding fa by simp
qed

theorem updateCommandWithFlags_added_flags_quoted_witness:
  "updateCommandWithFlags [''install'', ''--token'', ''abc''] (\<lambda>c. Inr install_line)
     [\<lparr>flag_name = ''insecure'', flag_value = ''true''\<rparr>] =
   Inr [''install'', ''--token'', CHR 0x22 # ''abc'' @ [CHR 0x22], ''--insecure'',
        CHR 0x22 # ''true'' @ [CHR 0x22]]"
proof -
  have p: "(\<lambda>c. Inr install_line) [''install'', ''--token'', ''abc''] = Inr install_line"
    by simp
  have q: "\<forall>f \<in> set [\<lparr>flag_name = ''insecure'', flag_value = ''true''\<rparr>].
      flag_name f \<notin> set (present_flag_names (Elements install_line))"
    by (simp add: install_line_def)
  from updateCommandWithFlags_added_flags_quoted
    [of "\<lambda>c. Inr install_line" "[''install'', ''--token'', ''abc'']" install_line
      "[\<lparr>flag_name = ''insecure'', flag_value = ''true''\<rparr>]", OF p,
      THEN conjunct1, THEN mp, OF q]
  show ?thesis
    by (simp add: install_line_def strconv_Quote_def quote_byte_def)
qed

text \<open>
  C8. With the flag \<open>token\<close> present in the parsed line and requested twice, followed by
  another requested flag, \<open>updateCommandWithFlags\<close> appends \<open>--token\<close> again; requested twice and
  nothing after it, the slice expression in the removal loop panics.
\<close>

theorem updateCommandWithFlags_duplicate_request:
  "updateCommandWithFlags [''install'', ''--token'', ''abc''] (\<lambda>c. Inr install_line)
     [\<lparr>flag_name = ''token'', flag_value = ''b''\<rparr>,
      \<lparr>flag_name = ''token'', flag_value = ''c''\<rparr>,
      \<lparr>flag_name = ''advertise-addr'', flag_value = ''d''\<rparr>] =
   Inr [''install'', ''--token'', CHR 0x22 # ''abc'' @ [CHR 0x22],
        ''--token'', CHR 0x22 # ''c'' @ [CHR 0x22],
        ''--advertise-addr'', CHR 0x22 # ''d'' @ [CHR 0x22]]
   \<and> updateCommandWithFlags [''install'', ''--token'', ''abc''] (\<lambda>c. Inr install_line)
     [\<lparr>flag_name = ''token'', flag_value = ''b''\<rparr>,
      \<lparr>flag_name = ''token'', flag_value = ''c''\<rparr>] = Inl SliceBoundsPanic"
  by (simp add: updateCommandWithFlags_def install_line_def flag_args_def strconv_Quote_def
      quote_byte_def upt_rec)

end
